theory Spec2Isabelle
  imports Complex_Main
begin

section \<open>Floating-point values\<close>

text \<open>
  The scripts compute with numpy float64 values: the tube lengths and heights come out of
  numpy arrays, and \<open>np.sqrt\<close> and \<open>np.log10\<close> return float64, so every
  arithmetic operation of the functions below is a float64 operation. Such an operation
  never raises: a division by zero gives an infinity or a NaN, the square root and the
  logarithm of a negative number give NaN, and every comparison with NaN is false.

  A value is a finite number, one of the two infinities, or NaN. Finite values are exact
  reals: rounding, overflow to infinity and the sign of zero are outside the model.
\<close>

datatype npfloat = Fin real | PosInf | NegInf | NaN

instantiation npfloat :: "{zero, one, plus, uminus, minus, times, divide, abs, ord, numeral, power}"
begin

definition zero_npfloat :: npfloat where
  "zero_npfloat = Fin 0"

definition one_npfloat :: npfloat where
  "one_npfloat = Fin 1"

fun plus_npfloat :: "npfloat \<Rightarrow> npfloat \<Rightarrow> npfloat" where
  "plus_npfloat NaN y = NaN"
| "plus_npfloat x NaN = NaN"
| "plus_npfloat (Fin x) (Fin y) = Fin (x + y)"
| "plus_npfloat PosInf NegInf = NaN"
| "plus_npfloat NegInf PosInf = NaN"
| "plus_npfloat PosInf y = PosInf"
| "plus_npfloat NegInf y = NegInf"
| "plus_npfloat (Fin x) y = y"

fun uminus_npfloat :: "npfloat \<Rightarrow> npfloat" where
  "uminus_npfloat (Fin x) = Fin (- x)"
| "uminus_npfloat PosInf = NegInf"
| "uminus_npfloat NegInf = PosInf"
| "uminus_npfloat NaN = NaN"

definition minus_npfloat :: "npfloat \<Rightarrow> npfloat \<Rightarrow> npfloat" where
  "minus_npfloat x y = x + (- y)"

fun times_npfloat :: "npfloat \<Rightarrow> npfloat \<Rightarrow> npfloat" where
  "times_npfloat NaN y = NaN"
| "times_npfloat x NaN = NaN"
| "times_npfloat (Fin x) (Fin y) = Fin (x * y)"
| "times_npfloat (Fin x) PosInf = (if x = 0 then NaN else if 0 < x then PosInf else NegInf)"
| "times_npfloat (Fin x) NegInf = (if x = 0 then NaN else if 0 < x then NegInf else PosInf)"
| "times_npfloat PosInf (Fin y) = (if y = 0 then NaN else if 0 < y then PosInf else NegInf)"
| "times_npfloat NegInf (Fin y) = (if y = 0 then NaN else if 0 < y then NegInf else PosInf)"
| "times_npfloat PosInf PosInf = PosInf"
| "times_npfloat PosInf NegInf = NegInf"
| "times_npfloat NegInf PosInf = NegInf"
| "times_npfloat NegInf NegInf = PosInf"

fun divide_npfloat :: "npfloat \<Rightarrow> npfloat \<Rightarrow> npfloat" where
  "divide_npfloat NaN y = NaN"
| "divide_npfloat x NaN = NaN"
| "divide_npfloat (Fin x) (Fin y) =
     (if y = 0 then (if x = 0 then NaN else if 0 < x then PosInf else NegInf)
      else Fin (x / y))"
| "divide_npfloat (Fin x) y = Fin 0"
| "divide_npfloat PosInf (Fin y) = (if 0 \<le> y then PosInf else NegInf)"
| "divide_npfloat NegInf (Fin y) = (if 0 \<le> y then NegInf else PosInf)"
| "divide_npfloat x y = NaN"

fun abs_npfloat :: "npfloat \<Rightarrow> npfloat" where
  "abs_npfloat (Fin x) = Fin \<bar>x\<bar>"
| "abs_npfloat PosInf = PosInf"
| "abs_npfloat NegInf = PosInf"
| "abs_npfloat NaN = NaN"

fun less_npfloat :: "npfloat \<Rightarrow> npfloat \<Rightarrow> bool" where
  "less_npfloat NaN y = False"
| "less_npfloat x NaN = False"
| "less_npfloat (Fin x) (Fin y) = (x < y)"
| "less_npfloat x PosInf = (x \<noteq> PosInf)"
| "less_npfloat NegInf y = (y \<noteq> NegInf)"
| "less_npfloat x y = False"

fun less_eq_npfloat :: "npfloat \<Rightarrow> npfloat \<Rightarrow> bool" where
  "less_eq_npfloat NaN y = False"
| "less_eq_npfloat x NaN = False"
| "less_eq_npfloat (Fin x) (Fin y) = (x \<le> y)"
| "less_eq_npfloat x PosInf = True"
| "less_eq_npfloat NegInf y = True"
| "less_eq_npfloat x y = False"

instance
proof
  fix a b c :: npfloat
  show "a + b + c = a + (b + c)"
    by (cases a; cases b; cases c) simp_all
qed

end

instantiation npfloat :: inverse
begin

definition inverse_npfloat :: "npfloat \<Rightarrow> npfloat" where
  "inverse_npfloat x = divide (Fin 1) x"

instance ..

end

text \<open>\<open>np.sqrt\<close> and \<open>np.log10\<close>.\<close>

fun np_sqrt :: "npfloat \<Rightarrow> npfloat" where
  "np_sqrt (Fin x) = (if x < 0 then NaN else Fin (sqrt x))"
| "np_sqrt PosInf = PosInf"
| "np_sqrt NegInf = NaN"
| "np_sqrt NaN = NaN"

fun np_log10 :: "npfloat \<Rightarrow> npfloat" where
  "np_log10 (Fin x) = (if x < 0 then NaN else if x = 0 then NegInf else Fin (log 10 x))"
| "np_log10 PosInf = PosInf"
| "np_log10 NegInf = NaN"
| "np_log10 NaN = NaN"

text \<open>
  \<open>x ** n\<close> for an integer exponent (the scripts use 2 and -2): a negative power of
  zero is infinite, a negative power of an infinity is zero.
\<close>

fun np_power :: "npfloat \<Rightarrow> int \<Rightarrow> npfloat" where
  "np_power (Fin x) n =
     (if 0 \<le> n then Fin (x ^ nat n)
      else if x = 0 then PosInf
      else Fin (1 / x ^ nat (- n)))"
| "np_power PosInf n = (if n = 0 then Fin 1 else if 0 < n then PosInf else Fin 0)"
| "np_power NegInf n =
     (if n = 0 then Fin 1 else if n < 0 then Fin 0 else if even n then PosInf else NegInf)"
| "np_power NaN n = (if n = 0 then Fin 1 else NaN)"


section \<open>proper\_fluid\_sim.py\<close>

subsection \<open>Constants\<close>

definition G :: npfloat where
  "G = 9.81"

definition RHO :: npfloat where
  "RHO = 1000"

definition MU :: npfloat where
  "MU = 0.001"

definition D_TUBE :: npfloat where
  "D_TUBE = 0.00794"

definition A_TUBE :: npfloat where
  "A_TUBE = Fin pi * np_power (D_TUBE / 2) 2"

definition LENGTH_TANK :: npfloat where
  "LENGTH_TANK = 0.32"

definition WIDTH_TANK :: npfloat where
  "WIDTH_TANK = 0.26"

definition A_TANK :: npfloat where
  "A_TANK = LENGTH_TANK * WIDTH_TANK"

definition EPSILON :: npfloat where
  "EPSILON = 0.0000015"

definition K_ENTRANCE :: npfloat where
  "K_ENTRANCE = 0.45"

definition K_EXIT :: npfloat where
  "K_EXIT = 0"

definition H_INITIAL :: npfloat where
  "H_INITIAL = 0.10"

definition H_FINAL :: npfloat where
  "H_FINAL = 0.02"

definition DT :: npfloat where
  "DT = 0.01"

subsection \<open>The friction and velocity solver\<close>

definition colebrook :: "npfloat \<Rightarrow> npfloat \<Rightarrow> npfloat \<Rightarrow> npfloat" where
  "colebrook Re' d f =
     np_power (- 2.0 * np_log10 (EPSILON / (3.7 * d) + 2.51 / (Re' * np_sqrt f))) (- 2)"

text \<open>
  The body of \<open>for _ in range(max_iterations)\<close>, with the number of iterations left
  as the first argument. The \<open>break\<close> leaves the loop with the \<open>v\<close> and \<open>f\<close>
  of before the update; a loop that runs out returns the last \<open>v\<close> and \<open>f\<close>
  all the same.
\<close>

fun friction_loop ::
  "nat \<Rightarrow> npfloat \<Rightarrow> npfloat \<Rightarrow> npfloat \<Rightarrow> npfloat \<Rightarrow> npfloat \<Rightarrow> npfloat \<times> npfloat" where
  "friction_loop 0 h L tol v f = (v, f)"
| "friction_loop (Suc n) h L tol v f =
     (let Re' = RHO * v * D_TUBE / MU;
          Re' = (if Re' < 0.000001 then 0.000001 else Re');
          new_f = (if Re' < 2300 then 64 / Re' else colebrook Re' D_TUBE f)
      in if \<bar>new_f - f\<bar> < tol then (v, f)
         else
           let f = new_f;
               v = np_sqrt (2 * G * h / (1 + (f * L / D_TUBE) + K_ENTRANCE + K_EXIT))
           in friction_loop n h L tol v f)"

definition calculate_velocity_and_friction ::
  "npfloat \<Rightarrow> npfloat \<Rightarrow> npfloat \<Rightarrow> int \<Rightarrow> npfloat \<times> npfloat" where
  "calculate_velocity_and_friction h L tol max_iterations =
     (let f = 0.02;
          v = np_sqrt (2 * G * h / (1 + (f * L / D_TUBE) + K_ENTRANCE + K_EXIT))
      in friction_loop (nat max_iterations) h L tol v f)"

text \<open>
  Names for the parts of one iteration: the Reynolds number after the floor of lines
  61 to 63, and the new friction factor of lines 64 to 67.
\<close>

definition reynolds_clamped :: "npfloat \<Rightarrow> npfloat" where
  "reynolds_clamped v =
     (let Re' = RHO * v * D_TUBE / MU
      in if Re' < 0.000001 then 0.000001 else Re')"

definition new_friction :: "npfloat \<Rightarrow> npfloat \<Rightarrow> npfloat" where
  "new_friction v f =
     (let Re' = reynolds_clamped v
      in if Re' < 2300 then 64 / Re' else colebrook Re' D_TUBE f)"

text \<open>
  Whether the loop is left by its \<open>break\<close>, that is, whether the tolerance test
  succeeds in one of the iterations: the recursion of \<open>friction_loop\<close>, returning
  how the loop ends instead of what it returns.
\<close>

fun reaches_break ::
  "nat \<Rightarrow> npfloat \<Rightarrow> npfloat \<Rightarrow> npfloat \<Rightarrow> npfloat \<Rightarrow> npfloat \<Rightarrow> bool" where
  "reaches_break 0 h L tol v f = False"
| "reaches_break (Suc n) h L tol v f =
     (let new_f = new_friction v f
      in if \<bar>new_f - f\<bar> < tol then True
         else
           let f = new_f;
               v = np_sqrt (2 * G * h / (1 + (f * L / D_TUBE) + K_ENTRANCE + K_EXIT))
           in reaches_break n h L tol v f)"

definition converges :: "npfloat \<Rightarrow> npfloat \<Rightarrow> npfloat \<Rightarrow> int \<Rightarrow> bool" where
  "converges h L tol max_iterations =
     (let f = 0.02;
          v = np_sqrt (2 * G * h / (1 + (f * L / D_TUBE) + K_ENTRANCE + K_EXIT))
      in reaches_break (nat max_iterations) h L tol v f)"

text \<open>
  The governing equation as the specification writes it:
  velocity = sqrt(2 g height / (1 + frictionFactor (L/D) + K\_entrance + K\_exit)).
\<close>

definition governing_velocity :: "npfloat \<Rightarrow> npfloat \<Rightarrow> npfloat \<Rightarrow> npfloat" where
  "governing_velocity height L frictionFactor =
     np_sqrt (2 * G * height / (1 + frictionFactor * (L / D_TUBE) + K_ENTRANCE + K_EXIT))"

text \<open>
  The Colebrook-White correlation, 1 / sqrt f = - 2 log10 ((roughness / diameter) / 3.7
  + 2.51 / (Re sqrt f)): its right-hand side, as a function of the relative roughness, the
  Reynolds number and the friction factor of the implicit term.
\<close>

definition colebrook_rhs :: "real \<Rightarrow> real \<Rightarrow> real \<Rightarrow> real" where
  "colebrook_rhs relative_roughness reynolds f =
     - 2 * log 10 (relative_roughness / 3.7 + 2.51 / (reynolds * sqrt f))"

subsection \<open>The drain simulation\<close>

text \<open>
  The \<open>while h > H_FINAL\<close> loop of \<open>simulate_drain_time\<close>, on the variables it
  updates. The loop has no bound of its own: a run that never leaves it has the value
  \<open>None\<close>. The solver is called with its default tolerance and iteration count.
\<close>

partial_function (option) simulate_loop ::
  "npfloat \<Rightarrow> npfloat \<Rightarrow> npfloat \<Rightarrow> npfloat list \<Rightarrow> npfloat list
    \<Rightarrow> (npfloat \<times> npfloat list \<times> npfloat list) option" where
  "simulate_loop L h total_time heights times' =
     (if h > H_FINAL then
        (case calculate_velocity_and_friction h L 0.000001 100 of
           (v, f) \<Rightarrow>
             let dh = (A_TUBE / A_TANK) * v * DT;
                 h = h - dh;
                 total_time = total_time + DT
             in simulate_loop L h total_time (heights @ [h]) (times' @ [total_time]))
      else Some (total_time, times', heights))"

definition simulate_drain_time ::
  "npfloat \<Rightarrow> (npfloat \<times> npfloat list \<times> npfloat list) option" where
  "simulate_drain_time L = simulate_loop L H_INITIAL 0 [] []"

text \<open>
  The drain algorithm as the specification writes it (section 4.2): one step of the
  forward Euler recurrence on the time, the height and the Trajectory of (time, height)
  samples, and the state after \<open>k\<close> steps from the initial height at time 0.
\<close>

definition euler_step ::
  "npfloat \<Rightarrow> npfloat \<times> npfloat \<times> (npfloat \<times> npfloat) list
    \<Rightarrow> npfloat \<times> npfloat \<times> (npfloat \<times> npfloat) list" where
  "euler_step tubeLength s =
     (case s of
        (time, height, trajectory) \<Rightarrow>
          let velocity = fst (calculate_velocity_and_friction height tubeLength 0.000001 100);
              delta_h = (A_TUBE / A_TANK) * velocity * DT;
              height = height - delta_h;
              time = time + DT
          in (time, height, trajectory @ [(time, height)]))"

definition euler_run ::
  "npfloat \<Rightarrow> nat \<Rightarrow> npfloat \<times> npfloat \<times> (npfloat \<times> npfloat) list" where
  "euler_run tubeLength k = (euler_step tubeLength ^^ k) (0, H_INITIAL, [])"

definition height_after :: "npfloat \<Rightarrow> nat \<Rightarrow> npfloat" where
  "height_after tubeLength k = fst (snd (euler_run tubeLength k))"

text \<open>
  The loop of \<open>simulate_drain_time\<close> started on the variables that hold a state of
  the recurrence: the two lists of the code are the two columns of the Trajectory.
\<close>

definition loop_from ::
  "npfloat \<Rightarrow> npfloat \<times> npfloat \<times> (npfloat \<times> npfloat) list
    \<Rightarrow> (npfloat \<times> npfloat list \<times> npfloat list) option" where
  "loop_from L s =
     (case s of
        (time, height, trajectory) \<Rightarrow>
          simulate_loop L height time (map snd trajectory) (map fst trajectory))"

text \<open>A list of heights in which no element is above the one before it.\<close>

fun non_increasing :: "npfloat list \<Rightarrow> bool" where
  "non_increasing (x # y # zs) = (y \<le> x \<and> non_increasing (y # zs))"
| "non_increasing zs = True"

section \<open>reynolds\_numbers\_w\_iterative\_darcy.py\<close>

datatype py_error = RuntimeError | ZeroDivisionError

definition g :: npfloat where
  "g = 9.81"

text \<open>
  \<open>iterative_darcy_reynolds\<close> as the script calls it: \<open>h\<close> is a float64, the other
  arguments are Python floats. The divisions between Python floats are those by \<open>D\<close>;
  the first one stands at the top of the first iteration and raises on a zero \<open>D\<close>.
\<close>

fun darcy_loop ::
  "nat \<Rightarrow> npfloat \<Rightarrow> npfloat \<Rightarrow> npfloat \<Rightarrow> npfloat \<Rightarrow> npfloat \<Rightarrow> npfloat \<Rightarrow> npfloat
    \<Rightarrow> npfloat \<Rightarrow> npfloat \<Rightarrow> py_error + (npfloat \<times> npfloat)" where
  "darcy_loop 0 h L epsilon D K rho mu tol f = Inl RuntimeError"
| "darcy_loop (Suc n) h L epsilon D K rho mu tol f =
     (if D = 0 then Inl ZeroDivisionError
      else
        let v = np_sqrt (2 * g * h / (1 + f * L / D + K));
            Re' = (rho * v * D) / mu;
            f_new = (if Re' < 2000 then 64 / Re'
                     else np_power (- 1.8 * np_log10 ((epsilon / D) / 3.7 + 6.9 / Re')) (- 2))
        in if \<bar>f_new - f\<bar> < tol then Inr (Re', f_new)
           else darcy_loop n h L epsilon D K rho mu tol f_new)"

definition iterative_darcy_reynolds ::
  "npfloat \<Rightarrow> npfloat \<Rightarrow> npfloat \<Rightarrow> npfloat \<Rightarrow> npfloat \<Rightarrow> npfloat \<Rightarrow> npfloat \<Rightarrow> int
    \<Rightarrow> npfloat \<Rightarrow> py_error + (npfloat \<times> npfloat)" where
  "iterative_darcy_reynolds h L epsilon D K rho mu max_iter tol =
     darcy_loop (nat max_iter) h L epsilon D K rho mu tol 0.02"

section \<open>discharge\_model.py\<close>










section \<open>Evaluating the arithmetic\<close>

lemma numeral_npfloat: "(numeral k :: npfloat) = Fin (numeral k)"
  by (induction k) (simp_all only: numeral.simps one_npfloat_def plus_npfloat.simps)

lemma power_Fin: "(Fin x) ^ n = Fin (x ^ n)"
  by (induction n) (simp_all add: one_npfloat_def)

lemmas npfloat_eval =
  numeral_npfloat power_Fin zero_npfloat_def one_npfloat_def minus_npfloat_def

lemmas solver_consts = G_def RHO_def MU_def D_TUBE_def K_ENTRANCE_def K_EXIT_def EPSILON_def

section \<open>Properties of the model\<close>

subsection \<open>The loop of the solver\<close>

lemma friction_loop_Suc:
  "friction_loop (Suc n) h L tol v f =
     (if \<bar>new_friction v f - f\<bar> < tol then (v, f)
      else friction_loop n h L tol
             (np_sqrt (2 * G * h / (1 + (new_friction v f * L / D_TUBE) + K_ENTRANCE + K_EXIT)))
             (new_friction v f))"
  by (simp add: new_friction_def reynolds_clamped_def Let_def)

lemma reaches_break_Suc:
  "reaches_break (Suc n) h L tol v f =
     (if \<bar>new_friction v f - f\<bar> < tol then True
      else reaches_break n h L tol
             (np_sqrt (2 * G * h / (1 + (new_friction v f * L / D_TUBE) + K_ENTRANCE + K_EXIT)))
             (new_friction v f))"
  by (simp add: Let_def)

lemma times_divide_D_TUBE: "f * (L / D_TUBE) = f * L / D_TUBE"
  by (cases f; cases L)
     (auto simp add: D_TUBE_def npfloat_eval zero_less_mult_iff zero_less_divide_iff
        mult_less_0_iff divide_less_0_iff not_less not_le)

lemma friction_loop_governing:
  "friction_loop n h L tol v f = (v', f') \<Longrightarrow> v = governing_velocity h L f
     \<Longrightarrow> v' = governing_velocity h L f'"
proof (induction n arbitrary: v f)
  case 0
  then show ?case by auto
next
  case (Suc n)
  show ?case
  proof (cases "\<bar>new_friction v f - f\<bar> < tol")
    case True
    with Suc.prems show ?thesis
      by (auto simp add: friction_loop_Suc simp del: friction_loop.simps)
  next
    case False
    with Suc.prems(1) have "friction_loop n h L tol
             (np_sqrt (2 * G * h / (1 + (new_friction v f * L / D_TUBE) + K_ENTRANCE + K_EXIT)))
             (new_friction v f) = (v', f')"
      by (simp only: friction_loop_Suc if_False)
    then show ?thesis
      by (rule Suc.IH) (simp add: governing_velocity_def times_divide_D_TUBE)
  qed
qed

lemma friction_loop_break:
  "reaches_break n h L tol v f \<Longrightarrow> friction_loop n h L tol v f = (v', f')
     \<Longrightarrow> \<bar>new_friction v' f' - f'\<bar> < tol"
proof (induction n arbitrary: v f)
  case 0
  then show ?case by auto
next
  case (Suc n)
  show ?case
  proof (cases "\<bar>new_friction v f - f\<bar> < tol")
    case True
    with Suc.prems show ?thesis
      by (auto simp add: friction_loop_Suc simp del: friction_loop.simps)
  next
    case False
    with Suc.prems show ?thesis
      by (simp only: friction_loop_Suc reaches_break_Suc if_False Suc.IH)
  qed
qed

subsection \<open>Bounds on the Colebrook value\<close>

lemma log10_bounds:
  assumes "1 / 100000 \<le> a" "a < 1 / 10"
  shows "- 5 \<le> log 10 a" "log 10 a < - 1"
proof -
  have a0: "0 < a" using assms by simp
  have "(10::real) powr (- 5) = 1 / 100000"
    by (simp add: powr_minus divide_simps)
  then show "- 5 \<le> log 10 a"
    using assms a0 by (simp add: le_log_iff)
  have "(10::real) powr (- 1) = 1 / 10"
    by (simp add: powr_minus divide_simps)
  then show "log 10 a < - 1"
    using assms a0 by (simp add: log_less_iff)
qed

lemma reynolds_clamped_Fin:
  "0 \<le> x \<Longrightarrow> reynolds_clamped (Fin x) = Fin (max (7940 * x) (1 / 1000000))"
  by (simp add: reynolds_clamped_def solver_consts npfloat_eval Let_def max_def)

lemma colebrook_value:
  assumes "2300 \<le> r" "1 / 100 \<le> p"
  shows "colebrook (Fin r) D_TUBE (Fin p)
           = Fin (1 / (colebrook_rhs (0.0000015 / 0.00794) r p)\<^sup>2)"
    and "2 < colebrook_rhs (0.0000015 / 0.00794) r p"
    and "colebrook_rhs (0.0000015 / 0.00794) r p \<le> 10"
proof -
  define x0 :: real where "x0 = 3 / 58756"
  define t where "t = 251 / 100 / (r * sqrt p)"
  define a where "a = x0 + t"
  define b where "b = - 2 * log 10 a"
  have sp: "1 / 10 \<le> sqrt p"
    using assms(2) by (intro real_le_rsqrt) (simp add: power2_eq_square)
  have rs: "230 \<le> r * sqrt p"
    using mult_mono[of 2300 r "1 / 10" "sqrt p"] assms(1) sp by simp
  then have rs0: "0 < r * sqrt p" by simp
  have "t \<le> 251 / 100 / 230"
    unfolding t_def using rs by (intro divide_left_mono) simp_all
  moreover have "0 < t" unfolding t_def using rs0 by simp
  ultimately have a1: "1 / 100000 \<le> a" and a2: "a < 1 / 10"
    unfolding a_def x0_def by simp_all
  note lb = log10_bounds[OF a1 a2]
  have b: "2 < b" "b \<le> 10" using lb by (simp_all add: b_def)
  have "0.0000015 / 0.00794 / 3.7 + 2.51 / (r * sqrt p) = a"
    by (simp add: a_def x0_def t_def)
  then have rhs: "colebrook_rhs (0.0000015 / 0.00794) r p = b"
    by (simp only: colebrook_rhs_def b_def)
  have e1: "EPSILON / (3.7 * D_TUBE) = Fin x0"
    by (simp add: solver_consts npfloat_eval x0_def)
  have e2: "np_sqrt (Fin p) = Fin (sqrt p)"
    using assms(2) by simp
  have e3: "Fin r * Fin (sqrt p) = Fin (r * sqrt p)"
    by simp
  have e4: "2.51 / Fin (r * sqrt p) = Fin t"
    using rs0 assms by (auto simp add: npfloat_eval t_def)
  have e5: "Fin x0 + Fin t = Fin a"
    by (simp add: a_def)
  have e6: "np_log10 (Fin a) = Fin (log 10 a)"
    using a1 by simp
  have e7: "- 2.0 * Fin (log 10 a) = Fin b"
    by (simp add: npfloat_eval b_def)
  have e8: "np_power (Fin b) (- 2) = Fin (1 / b\<^sup>2)"
    using b by simp
  show "colebrook (Fin r) D_TUBE (Fin p)
           = Fin (1 / (colebrook_rhs (0.0000015 / 0.00794) r p)\<^sup>2)"
    by (simp only: colebrook_def e1 e2 e3 e4 e5 e6 e7 e8 rhs)
  show "2 < colebrook_rhs (0.0000015 / 0.00794) r p"
    "colebrook_rhs (0.0000015 / 0.00794) r p \<le> 10"
    using b by (simp_all only: rhs)
qed

lemma colebrook_Fin:
  assumes "2300 \<le> r" "1 / 100 \<le> p"
  shows "\<exists>q. colebrook (Fin r) D_TUBE (Fin p) = Fin q \<and> 1 / 100 \<le> q \<and> q \<le> 1 / 4"
proof -
  define b where "b = colebrook_rhs (0.0000015 / 0.00794) r p"
  note cv = colebrook_value[OF assms, folded b_def]
  have "4 < b\<^sup>2" using cv(2) power_strict_mono[of 2 b 2] by simp
  moreover have "b\<^sup>2 \<le> 100" using cv(2,3) power_mono[of b 10 2] by simp
  ultimately have "1 / 100 \<le> 1 / b\<^sup>2" "1 / b\<^sup>2 \<le> 1 / 4"
    using cv(2) by (simp_all add: divide_simps)
  with cv(1) show ?thesis by blast
qed

subsection \<open>Finite values of one iteration\<close>

lemma new_friction_Fin:
  assumes "0 \<le> x" "1 / 100 \<le> p"
  shows "\<exists>q. new_friction (Fin x) (Fin p) = Fin q \<and> 1 / 100 \<le> q \<and> q \<le> 64000000"
proof (cases "max (7940 * x) (1 / 1000000) < 2300")
  case True
  define r where "r = max (7940 * x) (1 / 1000000)"
  have r: "1 / 1000000 \<le> r" "r < 2300" using True by (simp_all add: r_def)
  have "new_friction (Fin x) (Fin p) = Fin (64 / r)"
    using r assms(1)
    by (simp add: new_friction_def reynolds_clamped_Fin r_def[symmetric] npfloat_eval)
  moreover have "1 / 100 \<le> 64 / r" "64 / r \<le> 64000000"
    using r by (simp_all add: divide_simps)
  ultimately show ?thesis by blast
next
  case False
  define r where "r = max (7940 * x) (1 / 1000000)"
  have r: "2300 \<le> r" using False by (simp add: r_def)
  have "new_friction (Fin x) (Fin p) = colebrook (Fin r) D_TUBE (Fin p)"
    using r assms(1)
    by (simp add: new_friction_def reynolds_clamped_Fin r_def[symmetric] npfloat_eval)
  with colebrook_Fin[OF r assms(2)] show ?thesis by auto
qed

lemma governing_velocity_Fin:
  assumes "0 \<le> y" "0 \<le> l" "0 \<le> q"
  shows "governing_velocity (Fin y) (Fin l) (Fin q) =
           Fin (sqrt (1962 / 100 * y / (145 / 100 + q * l * 100000 / 794)))"
proof -
  define d where "d = 145 / 100 + q * l * 100000 / 794"
  define m where "m = 1962 / 100 * y"
  have "0 \<le> q * l * 100000 / 794" using assms by simp
  then have d: "0 < d" unfolding d_def by linarith
  have m: "0 \<le> m" using assms(1) by (simp add: m_def)
  have e1: "1 + Fin q * (Fin l / D_TUBE) + K_ENTRANCE + K_EXIT = Fin d"
    by (simp add: solver_consts npfloat_eval d_def)
  have e2: "2 * G * Fin y = Fin m"
    by (simp add: solver_consts npfloat_eval m_def)
  have e3: "Fin m / Fin d = Fin (m / d)"
    using d by simp
  have e4: "np_sqrt (Fin (m / d)) = Fin (sqrt (m / d))"
    using d m by (simp add: not_less)
  show ?thesis
    unfolding governing_velocity_def e1 e2 e3 e4 by (simp only: d_def m_def)
qed

subsection \<open>The solver on finite inputs\<close>

lemma code_velocity_eq:
  "np_sqrt (2 * G * h / (1 + (f * L / D_TUBE) + K_ENTRANCE + K_EXIT)) = governing_velocity h L f"
  by (simp add: governing_velocity_def times_divide_D_TUBE)

lemma governing_velocity_nonneg:
  assumes "0 \<le> y" "0 \<le> l" "0 \<le> q"
  shows "\<exists>x. governing_velocity (Fin y) (Fin l) (Fin q) = Fin x \<and> 0 \<le> x"
proof -
  define d where "d = 145 / 100 + q * l * 100000 / 794"
  have "0 \<le> q * l * 100000 / 794" using assms by simp
  then have "0 < d" unfolding d_def by linarith
  then have "0 \<le> sqrt (1962 / 100 * y / d)" using assms(1) by simp
  then show ?thesis
    unfolding governing_velocity_Fin[OF assms] d_def by blast
qed

lemma friction_loop_Fin:
  assumes "0 \<le> y" "0 \<le> l"
  shows "1 / 100 \<le> p \<Longrightarrow> p \<le> 64000000 \<Longrightarrow>
    \<exists>q. friction_loop n (Fin y) (Fin l) tol (governing_velocity (Fin y) (Fin l) (Fin p)) (Fin p)
           = (governing_velocity (Fin y) (Fin l) (Fin q), Fin q)
         \<and> 1 / 100 \<le> q \<and> q \<le> 64000000"
proof (induction n arbitrary: p)
  case 0
  then show ?case by auto
next
  case (Suc n)
  let ?v = "governing_velocity (Fin y) (Fin l) (Fin p)"
  have "0 \<le> p" using Suc.prems by simp
  from governing_velocity_nonneg[OF assms this]
  obtain x where x: "?v = Fin x" "0 \<le> x" by blast
  from new_friction_Fin[OF x(2) Suc.prems(1)]
  obtain q where q: "new_friction (Fin x) (Fin p) = Fin q" "1 / 100 \<le> q" "q \<le> 64000000"
    by blast
  show ?case
  proof (cases "\<bar>new_friction ?v (Fin p) - Fin p\<bar> < tol")
    case True
    then show ?thesis
      using Suc.prems by (auto simp add: friction_loop_Suc simp del: friction_loop.simps)
  next
    case False
    then have "friction_loop (Suc n) (Fin y) (Fin l) tol ?v (Fin p)
        = friction_loop n (Fin y) (Fin l) tol (governing_velocity (Fin y) (Fin l) (Fin q)) (Fin q)"
      by (simp only: friction_loop_Suc if_False code_velocity_eq x(1) q(1))
    with Suc.IH[OF q(2) q(3)] show ?thesis by simp
  qed
qed

lemma solver_Fin:
  assumes "0 \<le> y" "0 \<le> l"
  shows "\<exists>q. calculate_velocity_and_friction (Fin y) (Fin l) tol n
           = (Fin (sqrt (1962 / 100 * y / (145 / 100 + q * l * 100000 / 794))), Fin q)
         \<and> 1 / 100 \<le> q \<and> q \<le> 64000000"
proof -
  have f0: "(0.02::npfloat) = Fin (2 / 100)"
    by (simp add: npfloat_eval)
  have "calculate_velocity_and_friction (Fin y) (Fin l) tol n =
      friction_loop (nat n) (Fin y) (Fin l) tol
        (governing_velocity (Fin y) (Fin l) (Fin (2 / 100))) (Fin (2 / 100))"
    by (simp only: calculate_velocity_and_friction_def Let_def code_velocity_eq f0)
  moreover from friction_loop_Fin[OF assms, of "2 / 100" "nat n" tol]
  obtain q where "friction_loop (nat n) (Fin y) (Fin l) tol
        (governing_velocity (Fin y) (Fin l) (Fin (2 / 100))) (Fin (2 / 100))
      = (governing_velocity (Fin y) (Fin l) (Fin q), Fin q)" "1 / 100 \<le> q" "q \<le> 64000000"
    by auto
  moreover from this have "governing_velocity (Fin y) (Fin l) (Fin q)
      = Fin (sqrt (1962 / 100 * y / (145 / 100 + q * l * 100000 / 794)))"
    using governing_velocity_Fin[OF assms, of q] by simp
  ultimately show ?thesis by auto
qed

subsection \<open>The drain loop and the recurrence\<close>

lemma loop_from_step:
  "H_FINAL < fst (snd s) \<Longrightarrow> loop_from L s = loop_from L (euler_step L s)"
  apply (cases s)
  apply (simp add: loop_from_def)
  apply (subst simulate_loop.simps)
  apply (simp add: euler_step_def Let_def split: prod.splits)
  done

lemma loop_from_exit:
  "\<not> H_FINAL < fst (snd s) \<Longrightarrow>
     loop_from L s = Some (fst s, map fst (snd (snd s)), map snd (snd (snd s)))"
  apply (cases s)
  apply (simp add: loop_from_def)
  apply (subst simulate_loop.simps)
  apply simp
  done

lemma loop_from_funpow:
  "(\<forall>i<k. H_FINAL < fst (snd ((euler_step L ^^ i) s))) \<Longrightarrow>
     loop_from L s = loop_from L ((euler_step L ^^ k) s)"
proof (induction k)
  case 0
  show ?case by simp
next
  case (Suc k)
  then have "loop_from L s = loop_from L ((euler_step L ^^ k) s)" by simp
  also have "\<dots> = loop_from L (euler_step L ((euler_step L ^^ k) s))"
    using Suc.prems by (intro loop_from_step) simp
  finally show ?case by simp
qed

text \<open>The time and the height of the iterates do not depend on the trajectory.\<close>

lemma euler_step_th:
  "fst (euler_step L (t, h, tr)) = fst (euler_step L (t, h, tr'))
   \<and> fst (snd (euler_step L (t, h, tr))) = fst (snd (euler_step L (t, h, tr')))"
  by (simp add: euler_step_def Let_def)

lemma euler_funpow_th:
  "fst ((euler_step L ^^ k) (t, h, tr)) = fst ((euler_step L ^^ k) (t, h, tr'))
   \<and> fst (snd ((euler_step L ^^ k) (t, h, tr))) = fst (snd ((euler_step L ^^ k) (t, h, tr')))"
proof (induction k arbitrary: tr tr')
  case 0
  show ?case by simp
next
  case (Suc k)
  obtain a b c where s: "(euler_step L ^^ k) (t, h, tr) = (a, b, c)"
    by (cases "(euler_step L ^^ k) (t, h, tr)")
  obtain a' b' c' where s': "(euler_step L ^^ k) (t, h, tr') = (a', b', c')"
    by (cases "(euler_step L ^^ k) (t, h, tr')")
  from Suc.IH[of tr tr'] s s' have "a = a'" "b = b'" by simp_all
  then show ?case using s s' euler_step_th[of L a b c c'] by simp
qed

lemma simulate_loop_Some_ex:
  assumes "simulate_loop L h t hs ts = Some r"
  shows "\<exists>k. \<not> H_FINAL < fst (snd ((euler_step L ^^ k) (t, h, [])))"
proof (rule simulate_loop.raw_induct[where P = "\<lambda>L h t hs ts r.
    \<exists>k. \<not> H_FINAL < fst (snd ((euler_step L ^^ k) (t, h, [])))", OF _ assms], goal_cases)
  case (1 sim L h t hs ts r)
  show ?case
  proof (cases "H_FINAL < h")
    case False
    then have "\<not> H_FINAL < fst (snd ((euler_step L ^^ 0) (t, h, [])))" by simp
    then show ?thesis by blast
  next
    case True
    obtain t' h' tr' where st: "euler_step L (t, h, []) = (t', h', tr')"
      by (cases "euler_step L (t, h, [])")
    from True 1(2) have "sim L h' t' (hs @ [h']) (ts @ [t']) = Some r"
      using st by (simp add: euler_step_def Let_def split: prod.splits)
    from 1(1)[OF this] obtain k where
      k: "\<not> H_FINAL < fst (snd ((euler_step L ^^ k) (t', h', [])))" by blast
    have "fst (snd ((euler_step L ^^ k) (t', h', []))) = fst (snd ((euler_step L ^^ k) (t', h', tr')))"
      using euler_funpow_th[of k L t' h' "[]" tr'] by simp
    with k have "\<not> H_FINAL < fst (snd ((euler_step L ^^ Suc k) (t, h, [])))"
      by (simp add: funpow_swap1 st)
    then show ?thesis by blast
  qed
qed

subsection \<open>When the simulation returns\<close>

lemma simulate_drain_time_loop_from:
  "simulate_drain_time L = loop_from L (0, H_INITIAL, [])"
  by (simp add: simulate_drain_time_def loop_from_def)

lemma simulate_at:
  assumes "\<forall>i<k. H_FINAL < height_after L i" "\<not> H_FINAL < height_after L k"
  shows "simulate_drain_time L =
    Some (fst (euler_run L k), map fst (snd (snd (euler_run L k))),
          map snd (snd (snd (euler_run L k))))"
proof -
  have "simulate_drain_time L = loop_from L (euler_run L k)"
    unfolding simulate_drain_time_loop_from euler_run_def
    using assms(1) by (intro loop_from_funpow) (simp add: height_after_def euler_run_def)
  also have "\<dots> = Some (fst (euler_run L k), map fst (snd (snd (euler_run L k))),
          map snd (snd (snd (euler_run L k))))"
    using assms(2) by (intro loop_from_exit) (simp add: height_after_def)
  finally show ?thesis .
qed

lemma simulate_Some_ex:
  assumes "simulate_drain_time L = Some r"
  shows "\<exists>k. (\<forall>i<k. H_FINAL < height_after L i) \<and> \<not> H_FINAL < height_after L k"
proof -
  from simulate_loop_Some_ex[OF assms[unfolded simulate_drain_time_def]]
  have ex: "\<exists>k. \<not> H_FINAL < height_after L k"
    by (simp add: height_after_def euler_run_def)
  define k where "k = (LEAST k. \<not> H_FINAL < height_after L k)"
  have "\<not> H_FINAL < height_after L k"
    unfolding k_def using ex by (rule LeastI_ex)
  moreover have "\<forall>i<k. H_FINAL < height_after L i"
    unfolding k_def using not_less_Least by blast
  ultimately show ?thesis by blast
qed

lemma simulate_None_iff:
  "simulate_drain_time L = None \<longleftrightarrow> (\<forall>k. H_FINAL < height_after L k)"
proof
  assume n: "simulate_drain_time L = None"
  show "\<forall>k. H_FINAL < height_after L k"
  proof (rule ccontr)
    assume "\<not> (\<forall>k. H_FINAL < height_after L k)"
    then have ex: "\<exists>k. \<not> H_FINAL < height_after L k" by simp
    define k where "k = (LEAST k. \<not> H_FINAL < height_after L k)"
    have "\<not> H_FINAL < height_after L k"
      unfolding k_def using ex by (rule LeastI_ex)
    moreover have "\<forall>i<k. H_FINAL < height_after L i"
      unfolding k_def using not_less_Least by blast
    ultimately show False using simulate_at[of k L] n by simp
  qed
next
  assume a: "\<forall>k. H_FINAL < height_after L k"
  show "simulate_drain_time L = None"
  proof (cases "simulate_drain_time L")
    case None
    then show ?thesis .
  next
    case (Some r)
    from simulate_Some_ex[OF this] a show ?thesis by blast
  qed
qed

lemma euler_run_Suc: "euler_run L (Suc k) = euler_step L (euler_run L k)"
  by (simp add: euler_run_def)

lemma euler_run_0: "euler_run L 0 = (0, H_INITIAL, [])"
  by (simp add: euler_run_def)

lemma height_after_0: "height_after L 0 = H_INITIAL"
  by (simp add: height_after_def euler_run_0)

lemma height_after_Suc:
  "height_after L (Suc k) =
     height_after L k
       - (A_TUBE / A_TANK) * fst (calculate_velocity_and_friction (height_after L k) L 0.000001 100)
         * DT"
  by (cases "euler_run L k")
     (simp add: height_after_def euler_run_Suc euler_step_def Let_def)

lemma trajectory_heights:
  "length (snd (snd (euler_run L k))) = k
   \<and> (\<forall>i<k. snd (snd (snd (euler_run L k)) ! i) = height_after L (Suc i))"
proof (induction k)
  case 0
  show ?case by (simp add: euler_run_0)
next
  case (Suc k)
  obtain t h tr where s: "euler_run L k = (t, h, tr)" by (cases "euler_run L k")
  obtain t' h' where s': "euler_run L (Suc k) = (t', h', tr @ [(t', h')])"
    using s by (simp add: euler_run_Suc euler_step_def Let_def)
  have h': "height_after L (Suc k) = h'" by (simp add: height_after_def s')
  show ?case
    using Suc.IH s h' by (auto simp add: s' nth_append less_Suc_eq)
qed

subsection \<open>Termination for a finite tube length\<close>

lemma area_ratio: "\<exists>c. A_TUBE / A_TANK = Fin c \<and> 0 < c"
proof -
  have "A_TUBE / A_TANK = Fin (pi * (794 / 100000 / 2)\<^sup>2 / (32 / 100 * (26 / 100)))"
    by (simp add: A_TUBE_def A_TANK_def LENGTH_TANK_def WIDTH_TANK_def D_TUBE_def npfloat_eval)
  moreover have "0 < pi * (794 / 100000 / 2)\<^sup>2 / (32 / 100 * (26 / 100))"
    by simp
  ultimately show ?thesis by blast
qed

lemma H_FINAL_less_Fin: "H_FINAL < Fin y \<longleftrightarrow> 2 / 100 < y"
  by (simp add: H_FINAL_def npfloat_eval)

lemma solver_velocity_lower:
  assumes "0 \<le> l" "2 / 100 < y"
  shows "\<exists>x. fst (calculate_velocity_and_friction (Fin y) (Fin l) tol n) = Fin x
    \<and> sqrt (1962 / 100 * (2 / 100) / (145 / 100 + 64000000 * l * 100000 / 794)) \<le> x"
proof -
  have y0: "0 \<le> y" using assms(2) by simp
  from solver_Fin[OF y0 assms(1), of tol n] obtain q where
    q: "calculate_velocity_and_friction (Fin y) (Fin l) tol n
          = (Fin (sqrt (1962 / 100 * y / (145 / 100 + q * l * 100000 / 794))), Fin q)"
       "1 / 100 \<le> q" "q \<le> 64000000" by blast
  have ql: "q * l \<le> 64000000 * l" using q(3) assms(1) by (intro mult_right_mono)
  have "0 \<le> q * l * 100000 / 794" using q(2) assms(1) by simp
  then have d0: "0 < 145 / 100 + q * l * 100000 / 794"
    by linarith
  have "q * l * 100000 / 794 \<le> 64000000 * l * 100000 / 794"
    using q(3) assms(1) by (intro divide_right_mono mult_right_mono) simp_all
  then have dle: "145 / 100 + q * l * 100000 / 794 \<le> 145 / 100 + 64000000 * l * 100000 / 794"
    by linarith
  have "1962 / 100 * (2 / 100) / (145 / 100 + 64000000 * l * 100000 / 794)
      \<le> 1962 / 100 * y / (145 / 100 + q * l * 100000 / 794)"
    using assms(2) d0 dle by (intro frac_le) simp_all
  then have "sqrt (1962 / 100 * (2 / 100) / (145 / 100 + 64000000 * l * 100000 / 794))
      \<le> sqrt (1962 / 100 * y / (145 / 100 + q * l * 100000 / 794))"
    by (simp only: real_sqrt_le_iff)
  with q(1) show ?thesis by simp
qed

lemma heights_decrease:
  assumes l: "0 \<le> l"
    and c: "A_TUBE / A_TANK = Fin c" "0 < c"
    and b: "\<forall>i<k. H_FINAL < height_after (Fin l) i"
  shows "\<exists>y. height_after (Fin l) k = Fin y \<and>
    y \<le> 1 / 10 - real k *
      (c * sqrt (1962 / 100 * (2 / 100) / (145 / 100 + 64000000 * l * 100000 / 794)) / 100)"
  using b
proof (induction k)
  case 0
  have "height_after (Fin l) 0 = Fin (1 / 10)"
    by (simp add: height_after_0 H_INITIAL_def npfloat_eval)
  then show ?case by (intro exI[of _ "1 / 10"]) simp
next
  case (Suc k)
  define vmin where
    "vmin = sqrt (1962 / 100 * (2 / 100) / (145 / 100 + 64000000 * l * 100000 / 794))"
  from Suc obtain y where y: "height_after (Fin l) k = Fin y"
    "y \<le> 1 / 10 - real k * (c * vmin / 100)"
    unfolding vmin_def by auto
  from Suc.prems have "H_FINAL < height_after (Fin l) k" by simp
  then have y2: "2 / 100 < y" by (simp add: y(1) H_FINAL_less_Fin)
  from solver_velocity_lower[OF l y2, of "0.000001" 100] obtain x where
    x: "fst (calculate_velocity_and_friction (Fin y) (Fin l) 0.000001 100) = Fin x" "vmin \<le> x"
    unfolding vmin_def by blast
  have hs: "height_after (Fin l) (Suc k) = Fin (y - c * x / 100)"
    by (simp only: height_after_Suc y(1) x(1) c(1)) (simp add: DT_def npfloat_eval)
  have "c * vmin \<le> c * x" using x(2) c(2) by simp
  then have "c * vmin / 100 \<le> c * x / 100" by simp
  moreover have "real (Suc k) * (c * vmin / 100) = real k * (c * vmin / 100) + c * vmin / 100"
    by (simp add: algebra_simps)
  ultimately have "y - c * x / 100 \<le> 1 / 10 - real (Suc k) * (c * vmin / 100)"
    using y(2) by linarith
  with hs show ?case unfolding vmin_def by blast
qed

lemma drain_terminates:
  assumes "0 \<le> l"
  shows "\<exists>k. (\<forall>i<k. H_FINAL < height_after (Fin l) i) \<and> \<not> H_FINAL < height_after (Fin l) k"
proof -
  obtain c where c: "A_TUBE / A_TANK = Fin c" "0 < c" using area_ratio by blast
  define vmin where
    "vmin = sqrt (1962 / 100 * (2 / 100) / (145 / 100 + 64000000 * l * 100000 / 794))"
  have "0 \<le> 64000000 * l * 100000 / 794" using assms by simp
  then have "0 < 145 / 100 + 64000000 * l * 100000 / 794"
    by linarith
  then have "0 < vmin" unfolding vmin_def by simp
  then have d: "0 < c * vmin / 100" using c(2) by simp
  have ex: "\<exists>k. \<not> H_FINAL < height_after (Fin l) k"
  proof (rule ccontr)
    assume "\<not> ?thesis"
    then have all: "\<forall>k. H_FINAL < height_after (Fin l) k" by simp
    from reals_Archimedean3[OF d] obtain n where n: "8 / 100 < real n * (c * vmin / 100)"
      by blast
    from heights_decrease[OF assms c, of n] all obtain y where
      y: "height_after (Fin l) n = Fin y" "y \<le> 1 / 10 - real n * (c * vmin / 100)"
      unfolding vmin_def by auto
    from all have "H_FINAL < height_after (Fin l) n" by blast
    then have "2 / 100 < y" by (simp add: y(1) H_FINAL_less_Fin)
    with y(2) n show False by simp
  qed
  define k where "k = (LEAST k. \<not> H_FINAL < height_after (Fin l) k)"
  have "\<not> H_FINAL < height_after (Fin l) k"
    unfolding k_def using ex by (rule LeastI_ex)
  moreover have "\<forall>i<k. H_FINAL < height_after (Fin l) i"
    unfolding k_def using not_less_Least by blast
  ultimately show ?thesis by blast
qed

lemma simulate_terminates:
  assumes "0 \<le> l"
  shows "\<exists>r. simulate_drain_time (Fin l) = Some r"
  using drain_terminates[OF assms] simulate_at[of _ "Fin l"] by blast

subsection \<open>An infinite tube length\<close>

lemma new_friction_zero: "new_friction (Fin 0) f = Fin 64000000"
  by (simp add: new_friction_def reynolds_clamped_def solver_consts npfloat_eval Let_def)

lemma governing_velocity_PosInf:
  "0 < q \<Longrightarrow> governing_velocity (Fin y) PosInf (Fin q) = Fin 0"
  by (simp add: governing_velocity_def solver_consts npfloat_eval)

lemma friction_loop_zero_velocity:
  assumes "governing_velocity h L (Fin 64000000) = Fin 0"
  shows "friction_loop (Suc (Suc m)) h L 0.000001 (Fin 0) (Fin (2 / 100)) = (Fin 0, Fin 64000000)"
proof -
  have t1: "\<not> \<bar>Fin 64000000 - Fin (2 / 100)\<bar> < (0.000001::npfloat)"
    by (simp add: npfloat_eval)
  have t2: "\<bar>Fin 64000000 - Fin 64000000\<bar> < (0.000001::npfloat)"
    by (simp add: npfloat_eval)
  show ?thesis
    by (simp only: friction_loop_Suc new_friction_zero t1 t2 if_False if_True
        code_velocity_eq assms)
qed

lemma solver_PosInf:
  "calculate_velocity_and_friction (Fin y) PosInf 0.000001 100 = (Fin 0, Fin 64000000)"
proof -
  have n: "nat 100 = Suc (Suc 98)" by simp
  have f0: "(0.02::npfloat) = Fin (2 / 100)" by (simp add: npfloat_eval)
  have v0: "governing_velocity (Fin y) PosInf (Fin (2 / 100)) = Fin 0"
    by (rule governing_velocity_PosInf) simp
  have v1: "governing_velocity (Fin y) PosInf (Fin 64000000) = Fin 0"
    by (rule governing_velocity_PosInf) simp
  show ?thesis
    unfolding calculate_velocity_and_friction_def Let_def code_velocity_eq f0 n v0
    by (rule friction_loop_zero_velocity[OF v1])
qed

lemma height_after_PosInf: "height_after PosInf k = H_INITIAL"
proof (induction k)
  case 0
  show ?case by (rule height_after_0)
next
  case (Suc k)
  obtain c where c: "A_TUBE / A_TANK = Fin c" using area_ratio by blast
  have h: "H_INITIAL = Fin (1 / 10)" by (simp add: H_INITIAL_def npfloat_eval)
  show ?case
    by (simp only: height_after_Suc Suc.IH h solver_PosInf fst_conv c)
       (simp add: DT_def npfloat_eval)
qed

subsection \<open>Heights along a run\<close>

lemma non_increasing_nth:
  "(\<forall>i. Suc i < length xs \<longrightarrow> xs ! Suc i \<le> xs ! i) \<Longrightarrow> non_increasing xs"
proof (induction xs rule: non_increasing.induct)
  case (1 x y zs)
  have "y \<le> x" using 1(2)[rule_format, of 0] by simp
  moreover have "non_increasing (y # zs)"
  proof (rule 1(1))
    show "\<forall>i. Suc i < length (y # zs) \<longrightarrow> (y # zs) ! Suc i \<le> (y # zs) ! i"
      using 1(2) by (metis Suc_less_eq length_Cons nth_Cons_Suc)
  qed
  ultimately show ?case by simp
qed simp_all

lemma step_not_above:
  assumes "0 \<le> v" "0 < c"
  shows "Fin y - Fin c * v * DT \<le> Fin y \<and> Fin y - Fin c * v * DT \<noteq> PosInf"
  using assms by (cases v) (simp_all add: DT_def npfloat_eval split: if_splits)

lemma above_H_FINAL_cases: "H_FINAL < h \<Longrightarrow> h = PosInf \<or> (\<exists>y. h = Fin y)"
  by (cases h) (simp_all add: H_FINAL_def npfloat_eval)

lemma heights_step_down:
  assumes "\<forall>i<k. H_FINAL < height_after L i"
    and "\<forall>i<k. 0 \<le> fst (calculate_velocity_and_friction (height_after L i) L 0.000001 100)"
  shows "height_after L k \<noteq> PosInf \<and> (\<forall>i<k. height_after L (Suc i) \<le> height_after L i)"
  using assms
proof (induction k)
  case 0
  show ?case by (simp add: height_after_0 H_INITIAL_def npfloat_eval)
next
  case (Suc k)
  obtain c where c: "A_TUBE / A_TANK = Fin c" "0 < c" using area_ratio by blast
  from Suc have IH: "height_after L k \<noteq> PosInf"
    "\<forall>i<k. height_after L (Suc i) \<le> height_after L i" by simp_all
  from Suc.prems(1) have "H_FINAL < height_after L k" by simp
  with IH(1) above_H_FINAL_cases obtain y where y: "height_after L k = Fin y" by blast
  from Suc.prems(2) have v: "0 \<le> fst (calculate_velocity_and_friction (Fin y) L 0.000001 100)"
    using y by (metis lessI)
  have hs: "height_after L (Suc k)
      = Fin y - Fin c * fst (calculate_velocity_and_friction (Fin y) L 0.000001 100) * DT"
    by (simp only: height_after_Suc y c(1))
  from step_not_above[OF v c(2), of y]
  have "height_after L (Suc k) \<le> height_after L k" "height_after L (Suc k) \<noteq> PosInf"
    unfolding hs y by blast+
  with IH(2) show ?case by (simp add: less_Suc_eq)
qed

lemma returned_heights:
  assumes "simulate_drain_time L = Some (total_time, times', heights)"
  shows "(\<forall>i<length heights. H_FINAL < height_after L i)
    \<and> (\<forall>i\<le>length heights. (H_INITIAL # heights) ! i = height_after L i)"
proof -
  from simulate_Some_ex[OF assms] obtain k where
    k: "\<forall>i<k. H_FINAL < height_after L i" "\<not> H_FINAL < height_after L k" by blast
  obtain t h tr where s: "euler_run L k = (t, h, tr)" by (cases "euler_run L k")
  from simulate_at[OF k] assms s have eq: "heights = map snd tr" by simp
  from trajectory_heights[of L k] s have
    len: "length tr = k" and nth: "\<forall>i<k. snd (tr ! i) = height_after L (Suc i)" by simp_all
  have "(H_INITIAL # heights) ! i = height_after L i" if "i \<le> length heights" for i
  proof (cases i)
    case 0
    then show ?thesis by (simp add: height_after_0)
  next
    case (Suc j)
    with that have "j < k" by (simp add: eq len)
    then show ?thesis using nth by (simp add: Suc eq len)
  qed
  with k(1) show ?thesis by (simp add: eq len)
qed

lemma solver_velocity_nonneg:
  assumes "0 \<le> l" "0 \<le> y"
  shows "0 \<le> fst (calculate_velocity_and_friction (Fin y) (Fin l) tol n)"
proof -
  from solver_Fin[OF assms(2) assms(1), of tol n] obtain q where
    "calculate_velocity_and_friction (Fin y) (Fin l) tol n
       = (Fin (sqrt (1962 / 100 * y / (145 / 100 + q * l * 100000 / 794))), Fin q)"
    "1 / 100 \<le> q" by blast
  moreover have "0 \<le> q * l * 100000 / 794" using calculation(2) assms(1) by simp
  then have "0 < 145 / 100 + q * l * 100000 / 794" by linarith
  then have "0 \<le> sqrt (1962 / 100 * y / (145 / 100 + q * l * 100000 / 794))"
    using assms(2) by simp
  ultimately show ?thesis by (simp add: npfloat_eval)
qed

subsection \<open>The solver at height zero and in the laminar regime\<close>

lemma calculate_as_loop:
  "calculate_velocity_and_friction h L tol n =
     friction_loop (nat n) h L tol (governing_velocity h L 0.02) 0.02"
  by (simp only: calculate_velocity_and_friction_def Let_def code_velocity_eq)

lemma converges_as_loop:
  "converges h L tol n = reaches_break (nat n) h L tol (governing_velocity h L 0.02) 0.02"
  by (simp only: converges_def Let_def code_velocity_eq)

lemma reaches_break_zero_velocity:
  assumes "governing_velocity h L (Fin 64000000) = Fin 0"
  shows "reaches_break (Suc (Suc m)) h L 0.000001 (Fin 0) (Fin (2 / 100))"
proof -
  have t1: "\<not> \<bar>Fin 64000000 - Fin (2 / 100)\<bar> < (0.000001::npfloat)"
    by (simp add: npfloat_eval)
  have t2: "\<bar>Fin 64000000 - Fin 64000000\<bar> < (0.000001::npfloat)"
    by (simp add: npfloat_eval)
  show ?thesis
    by (simp only: reaches_break_Suc new_friction_zero t1 t2 if_False if_True
        code_velocity_eq assms)
qed

lemma governing_velocity_zero_height:
  assumes "0 \<le> l" "0 \<le> q"
  shows "governing_velocity (Fin 0) (Fin l) (Fin q) = Fin 0"
  using governing_velocity_Fin[of 0 l q] assms by simp

lemma solver_zero_height:
  assumes "0 \<le> l"
  shows "calculate_velocity_and_friction (Fin 0) (Fin l) 0.000001 100 = (Fin 0, Fin 64000000)"
    and "converges (Fin 0) (Fin l) 0.000001 100"
proof -
  have n: "nat 100 = Suc (Suc 98)" by simp
  have f0: "(0.02::npfloat) = Fin (2 / 100)" by (simp add: npfloat_eval)
  have v0: "governing_velocity (Fin 0) (Fin l) (Fin (2 / 100)) = Fin 0"
    using assms by (intro governing_velocity_zero_height) simp_all
  have v1: "governing_velocity (Fin 0) (Fin l) (Fin 64000000) = Fin 0"
    using assms by (intro governing_velocity_zero_height) simp_all
  show "calculate_velocity_and_friction (Fin 0) (Fin l) 0.000001 100 = (Fin 0, Fin 64000000)"
    unfolding calculate_as_loop f0 n v0 by (rule friction_loop_zero_velocity[OF v1])
  show "converges (Fin 0) (Fin l) 0.000001 100"
    unfolding converges_as_loop f0 n v0 by (rule reaches_break_zero_velocity[OF v1])
qed

lemma friction_loop_one_zero_velocity:
  assumes "governing_velocity h L (Fin 64000000) = Fin 0"
  shows "friction_loop (Suc 0) h L 0.000001 (Fin 0) (Fin (2 / 100)) = (Fin 0, Fin 64000000)"
proof -
  have t1: "\<not> \<bar>Fin 64000000 - Fin (2 / 100)\<bar> < (0.000001::npfloat)"
    by (simp add: npfloat_eval)
  show ?thesis
    by (simp only: friction_loop_Suc new_friction_zero t1 if_False code_velocity_eq assms
        friction_loop.simps(1))
qed

lemma solver_zero_height_iterated:
  assumes "0 \<le> l" "1 \<le> m"
  shows "calculate_velocity_and_friction 0 (Fin l) 0.000001 m = (0, 64000000)"
proof -
  have e: "(0::npfloat) = Fin 0" "(64000000::npfloat) = Fin 64000000"
    "(0.02::npfloat) = Fin (2 / 100)"
    by (simp_all add: npfloat_eval)
  have v0: "governing_velocity (Fin 0) (Fin l) (Fin (2 / 100)) = Fin 0"
    using assms(1) by (intro governing_velocity_zero_height) simp_all
  have v1: "governing_velocity (Fin 0) (Fin l) (Fin 64000000) = Fin 0"
    using assms(1) by (intro governing_velocity_zero_height) simp_all
  from assms(2) obtain k where k: "nat m = Suc k" by (cases "nat m") simp_all
  show ?thesis
  proof (cases k)
    case 0
    show ?thesis
      unfolding calculate_as_loop e k 0 v0 by (rule friction_loop_one_zero_velocity[OF v1])
  next
    case (Suc j)
    show ?thesis
      unfolding calculate_as_loop e k Suc v0 by (rule friction_loop_zero_velocity[OF v1])
  qed
qed

lemma new_friction_laminar_Fin:
  assumes "1 / 1000000 \<le> 7940 * x" "7940 * x < 2300"
  shows "new_friction (Fin x) f = Fin (64 / (7940 * x))"
proof -
  have x: "0 \<le> x" using assms(1) by simp
  have m: "max (7940 * x) (1 / 1000000) = 7940 * x" using assms(1) by simp
  show ?thesis
    using assms by (simp add: new_friction_def reynolds_clamped_Fin[OF x] m npfloat_eval)
qed

subsection \<open>The floor of the Reynolds number\<close>

lemma reynolds_clamped_cases:
  "reynolds_clamped v = NaN \<or> reynolds_clamped v = PosInf
   \<or> (\<exists>r. reynolds_clamped v = Fin r \<and> 1 / 1000000 \<le> r)"
proof (cases "RHO * v * D_TUBE / MU < (0.000001::npfloat)")
  case True
  then have "reynolds_clamped v = Fin (1 / 1000000)"
    by (simp add: reynolds_clamped_def Let_def npfloat_eval)
  then have "\<exists>r. reynolds_clamped v = Fin r \<and> 1 / 1000000 \<le> r"
    by (intro exI[of _ "1 / 1000000"]) simp
  then show ?thesis by blast
next
  case False
  then have "reynolds_clamped v = RHO * v * D_TUBE / MU"
    by (simp add: reynolds_clamped_def Let_def)
  with False show ?thesis
    by (cases "RHO * v * D_TUBE / MU") (simp_all add: npfloat_eval)
qed

subsection \<open>The first step of the simplified discharge model\<close>



section \<open>The solver when the iteration does not converge\<close>

text \<open>
  Claim C7. The specification: a call of the flow solver with maxIterations = 0 always
  fails with ConvergenceError. \<open>iterative_darcy_reynolds\<close> does so (RuntimeError), but
  \<open>calculate_velocity_and_friction\<close> returns the velocity of the initial guess and
  the initial guess 0.02 itself, for every height, length and tolerance.
\<close>

theorem zero_iterations_return_initial_guess:
  "calculate_velocity_and_friction h L tol 0 =
     (np_sqrt (2 * G * h / (1 + (0.02 * L / D_TUBE) + K_ENTRANCE + K_EXIT)), 0.02)
   \<and> iterative_darcy_reynolds h L epsilon D K rho mu 0 tol = Inl RuntimeError"
  by (simp add: calculate_velocity_and_friction_def iterative_darcy_reynolds_def Let_def)

text \<open>
  Claim C1. The specification: a call whose friction factor has not stabilized within
  maxIterations iterations fails with ConvergenceError. At height 0, tube length 0.3,
  tolerance 1e-6 and a single iteration, the tolerance test of that iteration fails (the
  new friction factor is 64/1e-6, the old one 0.02), the loop is not left by its break,
  and \<open>calculate_velocity_and_friction\<close> returns the pair (0, 64000000) all the same;
  \<open>iterative_darcy_reynolds\<close> raises RuntimeError at the same height and length.
\<close>

theorem unconverged_call_returns_numbers:
  "\<not> converges 0 0.3 0.000001 1
   \<and> calculate_velocity_and_friction 0 0.3 0.000001 1 = (0, 64000000)
   \<and> iterative_darcy_reynolds 0 0.3 0.0015 0.00794 1.5 1000 0.001 1 0.000001
       = Inl RuntimeError"
  by (simp add: converges_def calculate_velocity_and_friction_def iterative_darcy_reynolds_def
      new_friction_def reynolds_clamped_def g_def solver_consts npfloat_eval Let_def)

section \<open>The drain simulation\<close>

text \<open>
  Claim C5, as amended. The specification asks for a hard iteration cap on the time loop
  and a DrainDidNotCompleteError when it is exceeded. The loop of
  \<open>simulate_drain_time\<close> has neither: it returns after the first step at which the
  height of the recurrence is no longer above \<open>H_FINAL\<close>, with the time and the
  Trajectory of that step, and when there is no such step it never returns.
\<close>

theorem drain_loop_runs_until_height_reached:
  "simulate_drain_time L =
     (if \<forall>k. H_FINAL < height_after L k then None
      else
        let k = (LEAST k. \<not> H_FINAL < height_after L k)
        in Some (fst (euler_run L k), map fst (snd (snd (euler_run L k))),
                 map snd (snd (snd (euler_run L k)))))"
proof (cases "\<forall>k. H_FINAL < height_after L k")
  case True
  then have n: "simulate_drain_time L = None" by (rule simulate_None_iff[THEN iffD2])
  show ?thesis by (rule trans[OF n if_P[OF True, symmetric]])
next
  case False
  then have ex: "\<exists>k. \<not> H_FINAL < height_after L k" by simp
  define k where "k = (LEAST k. \<not> H_FINAL < height_after L k)"
  have "\<not> H_FINAL < height_after L k"
    unfolding k_def using ex by (rule LeastI_ex)
  moreover have "\<forall>i<k. H_FINAL < height_after L i"
    unfolding k_def using not_less_Least by blast
  ultimately have "simulate_drain_time L =
      Some (fst (euler_run L k), map fst (snd (snd (euler_run L k))),
            map snd (snd (snd (euler_run L k))))"
    by (rule simulate_at[rotated])
  then have r: "simulate_drain_time L =
      (let k = (LEAST k. \<not> H_FINAL < height_after L k)
       in Some (fst (euler_run L k), map fst (snd (snd (euler_run L k))),
                map snd (snd (snd (euler_run L k)))))"
    by (simp only: Let_def k_def)
  show ?thesis by (rule trans[OF r if_not_P[OF False, symmetric]])
qed

text \<open>
  The counterexample to C5 as stated: for an infinite tube length the solver's velocity is
  zero at every step, the height stays at \<open>H_INITIAL\<close>, and the simulation loops forever
  without an error.
\<close>

theorem infinite_tube_never_drains: "simulate_drain_time PosInf = None"
  by (simp add: simulate_None_iff height_after_PosInf H_INITIAL_def H_FINAL_def npfloat_eval)

text \<open>
  Claim C4. Every run of \<open>simulate_drain_time\<close> that returns is the forward Euler
  recurrence of the specification: for some number of steps \<open>k\<close>, the returned total
  time, times and heights are the time and the Trajectory of the recurrence after \<open>k\<close>
  steps from \<open>H_INITIAL\<close> at time 0; the height was above \<open>H_FINAL\<close> before each of
  the steps and is not above it after the last one; the last step is the full step of the
  recurrence, so the last recorded height is the height of the recurrence, which may lie
  below \<open>H_FINAL\<close>.
\<close>

theorem drain_run_is_euler_recurrence:
  assumes "simulate_drain_time L = Some (total_time, times', heights)"
  shows "\<exists>k. euler_run L k = (total_time, height_after L k, zip times' heights)
    \<and> length times' = k \<and> length heights = k
    \<and> (\<forall>i<k. H_FINAL < height_after L i)
    \<and> \<not> H_FINAL < height_after L k
    \<and> (0 < k \<longrightarrow> last heights = height_after L k)"
proof -
  from simulate_Some_ex[OF assms] obtain k where
    k: "\<forall>i<k. H_FINAL < height_after L i" "\<not> H_FINAL < height_after L k" by blast
  obtain t h tr where s: "euler_run L k = (t, h, tr)" by (cases "euler_run L k")
  from simulate_at[OF k] assms s have
    eq: "total_time = t" "times' = map fst tr" "heights = map snd tr" by simp_all
  have h: "height_after L k = h" by (simp add: height_after_def s)
  from trajectory_heights[of L k] s have
    len: "length tr = k" and nth: "\<forall>i<k. snd (tr ! i) = height_after L (Suc i)" by simp_all
  have z: "zip times' heights = tr" by (simp add: eq zip_map_fst_snd)
  have "last heights = height_after L k" if "0 < k"
  proof -
    from that len have ne: "tr \<noteq> []" by auto
    then have "last heights = snd (last tr)"
      by (simp add: eq last_map)
    also have "\<dots> = snd (tr ! (k - 1))"
      using ne by (simp add: last_conv_nth len)
    finally have "last heights = snd (tr ! (k - 1))" .
    with nth that show ?thesis by simp
  qed
  then have "euler_run L k = (total_time, height_after L k, zip times' heights)
    \<and> length times' = k \<and> length heights = k
    \<and> (\<forall>i<k. H_FINAL < height_after L i)
    \<and> \<not> H_FINAL < height_after L k
    \<and> (0 < k \<longrightarrow> last heights = height_after L k)"
    using k by (simp add: s h len eq zip_map_fst_snd)
  then show ?thesis ..
qed

text \<open>The run for the tube length 0.3 returns, and is such a recurrence.\<close>

theorem drain_run_is_euler_recurrence_witness:
  "\<exists>total_time times' heights k. simulate_drain_time 0.3 = Some (total_time, times', heights)
    \<and> euler_run 0.3 k = (total_time, height_after 0.3 k, zip times' heights)
    \<and> length heights = k \<and> \<not> H_FINAL < height_after 0.3 k"
proof -
  have L: "(0.3::npfloat) = Fin (3 / 10)" by (simp add: npfloat_eval)
  from simulate_terminates[of "3 / 10"] obtain r where "simulate_drain_time 0.3 = Some r"
    unfolding L by auto
  then obtain T TS HS where r: "simulate_drain_time 0.3 = Some (T, TS, HS)"
    by (cases r) auto
  from drain_run_is_euler_recurrence[OF r] obtain k where
    "euler_run 0.3 k = (T, height_after 0.3 k, zip TS HS)" "length HS = k"
    "\<not> H_FINAL < height_after 0.3 k" by blast
  with r show ?thesis by (intro exI[of _ T] exI[of _ TS] exI[of _ HS] exI[of _ k]) simp
qed

text \<open>
  Claim C6. In every run of \<open>simulate_drain_time\<close> that returns and in which the
  solver's velocity is not below zero at any of the heights the loop calls it with (the
  initial height and every recorded height but the last), no recorded height is above the
  one before it, the first not above the initial height.
\<close>

theorem heights_never_increase:
  assumes "simulate_drain_time L = Some (total_time, times', heights)"
    and "\<forall>i<length heights.
           0 \<le> fst (calculate_velocity_and_friction ((H_INITIAL # heights) ! i) L 0.000001 100)"
  shows "non_increasing (H_INITIAL # heights)"
proof (rule non_increasing_nth, intro allI impI)
  fix i
  assume "Suc i < length (H_INITIAL # heights)"
  then have i: "i < length heights" by simp
  note rh = returned_heights[OF assms(1)]
  have "\<forall>j<length heights.
      0 \<le> fst (calculate_velocity_and_friction (height_after L j) L 0.000001 100)"
    using assms(2) rh by (metis less_imp_le_nat)
  with heights_step_down[of "length heights" L] rh
  have "\<forall>j<length heights. height_after L (Suc j) \<le> height_after L j" by blast
  with i have "height_after L (Suc i) \<le> height_after L i" by blast
  moreover from rh i have "(H_INITIAL # heights) ! Suc i = height_after L (Suc i)"
    "(H_INITIAL # heights) ! i = height_after L i"
    by (metis Suc_leI, metis less_imp_le_nat)
  ultimately show "(H_INITIAL # heights) ! Suc i \<le> (H_INITIAL # heights) ! i" by simp
qed

text \<open>
  The run for the tube length 0.3 returns, its velocities are square roots of
  non-negative numbers, and its heights never increase.
\<close>

theorem heights_never_increase_witness:
  "\<exists>total_time times' heights.
     simulate_drain_time 0.3 = Some (total_time, times', heights)
     \<and> non_increasing (H_INITIAL # heights)"
proof -
  have L: "(0.3::npfloat) = Fin (3 / 10)" by (simp add: npfloat_eval)
  have l: "(0::real) \<le> 3 / 10" by simp
  obtain c where c: "A_TUBE / A_TANK = Fin c" "0 < c" using area_ratio by blast
  from simulate_terminates[OF l] obtain r where "simulate_drain_time 0.3 = Some r"
    unfolding L by blast
  then obtain T TS HS where r: "simulate_drain_time 0.3 = Some (T, TS, HS)"
    by (cases r) auto
  note rh = returned_heights[OF r]
  have v: "\<forall>i<length HS.
      0 \<le> fst (calculate_velocity_and_friction ((H_INITIAL # HS) ! i) 0.3 0.000001 100)"
  proof (intro allI impI)
    fix i
    assume i: "i < length HS"
    with rh have above: "\<forall>j<i. H_FINAL < height_after (Fin (3 / 10)) j"
      unfolding L by simp
    from heights_decrease[OF l c above] obtain y where
      y: "height_after (Fin (3 / 10)) i = Fin y" by blast
    from rh i have "H_FINAL < height_after (Fin (3 / 10)) i" unfolding L by simp
    then have "0 \<le> y" by (simp add: y H_FINAL_less_Fin)
    from solver_velocity_nonneg[OF l this, of "0.000001" 100]
    have "0 \<le> fst (calculate_velocity_and_friction (height_after 0.3 i) 0.3 0.000001 100)"
      by (simp only: L y)
    moreover from rh i have "(H_INITIAL # HS) ! i = height_after 0.3 i"
      by (metis less_imp_le_nat)
    ultimately show
      "0 \<le> fst (calculate_velocity_and_friction ((H_INITIAL # HS) ! i) 0.3 0.000001 100)"
      by simp
  qed
  from heights_never_increase[OF r v] r show ?thesis by blast
qed

section \<open>The solver's result\<close>

text \<open>
  Claim C2. The velocity and the friction factor that
  \<open>calculate_velocity_and_friction\<close> returns satisfy the governing equation of the
  specification exactly: the velocity is the square root of
  2 g h / (1 + f (L/D) + K\_entrance + K\_exit) at the returned friction factor. When the
  call converged (the loop was left by its break), the returned friction factor is within
  the tolerance of the friction factor of the flow regime at the Reynolds number of the
  returned velocity, so the triple is consistent to within the tolerance.
\<close>

theorem returned_values_satisfy_governing_equation:
  assumes "calculate_velocity_and_friction h L tol max_iterations = (v, f)"
  shows "v = governing_velocity h L f
    \<and> (converges h L tol max_iterations \<longrightarrow> \<bar>new_friction v f - f\<bar> < tol)"
proof
  from assms show "v = governing_velocity h L f"
    unfolding calculate_as_loop by (rule friction_loop_governing) simp
  show "converges h L tol max_iterations \<longrightarrow> \<bar>new_friction v f - f\<bar> < tol"
  proof
    assume "converges h L tol max_iterations"
    then show "\<bar>new_friction v f - f\<bar> < tol"
      unfolding converges_as_loop using assms[unfolded calculate_as_loop]
      by (rule friction_loop_break)
  qed
qed

text \<open>A call at height 0 converges in two iterations, with velocity 0.\<close>

theorem returned_values_satisfy_governing_equation_witness:
  "calculate_velocity_and_friction 0 0.3 0.000001 100 = (0, 64000000)
   \<and> converges 0 0.3 0.000001 100
   \<and> (0::npfloat) = governing_velocity 0 0.3 64000000
   \<and> \<bar>new_friction 0 64000000 - 64000000\<bar> < (0.000001::npfloat)"
proof -
  have e: "(0::npfloat) = Fin 0" "(0.3::npfloat) = Fin (3 / 10)"
    "(64000000::npfloat) = Fin 64000000"
    by (simp_all add: npfloat_eval)
  have l: "(0::real) \<le> 3 / 10" by simp
  note s = solver_zero_height[OF l]
  from returned_values_satisfy_governing_equation[OF s(1)] s
  show ?thesis unfolding e by simp
qed

text \<open>
  The laminar closed form holds for the calls that converged: when the loop was left by its
  break and the Reynolds number at the returned velocity, after the floor at 1e-6, is
  below the laminar threshold 2300, the returned friction factor is within the tolerance
  of 64/Re.
\<close>

theorem laminar_friction_of_converged_call:
  assumes "calculate_velocity_and_friction h L tol max_iterations = (v, f)"
    and "converges h L tol max_iterations"
    and "reynolds_clamped v < 2300"
  shows "\<bar>64 / reynolds_clamped v - f\<bar> < tol"
proof -
  from assms(2) have "\<bar>new_friction v f - f\<bar> < tol"
    unfolding converges_as_loop using assms(1)[unfolded calculate_as_loop]
    by (rule friction_loop_break)
  with assms(3) show ?thesis by (simp add: new_friction_def Let_def)
qed

text \<open>A call at height 0 converges, and its Reynolds number is the floor.\<close>

theorem laminar_friction_of_converged_call_witness:
  "calculate_velocity_and_friction 0 0.3 0.000001 100 = (0, 64000000)
   \<and> converges 0 0.3 0.000001 100
   \<and> reynolds_clamped 0 < 2300
   \<and> \<bar>64 / reynolds_clamped 0 - 64000000\<bar> < (0.000001::npfloat)"
proof -
  have e: "(0::npfloat) = Fin 0" "(0.3::npfloat) = Fin (3 / 10)"
    "(64000000::npfloat) = Fin 64000000"
    by (simp_all add: npfloat_eval)
  have l: "(0::real) \<le> 3 / 10" by simp
  note s = solver_zero_height[OF l]
  have r: "reynolds_clamped (Fin 0) < 2300"
    by (simp add: reynolds_clamped_Fin npfloat_eval)
  from laminar_friction_of_converged_call[OF s r] s r
  show ?thesis unfolding e by simp
qed

text \<open>
  Claim C8. The specification: when the Reynolds number stays below 2000, the returned
  friction factor is within the tolerance of 64/Re at the returned Reynolds number, however
  many iterations were performed. A call whose iterations run out returns all the same,
  and there it fails: at height 0.0001 and tube length 0.3 with a single iteration, the
  Reynolds number is below 2000 both in the iteration and at the returned velocity, and
  the returned friction factor (64 over the Reynolds number of the initial velocity,
  between 1/5 and 1/3) is farther than the tolerance from 64 over the Reynolds number of
  the returned velocity (at least 1/2).
\<close>

theorem unconverged_laminar_call_off_closed_form:
  "\<exists>v f. calculate_velocity_and_friction 0.0001 0.3 0.000001 1 = (v, f)
     \<and> reynolds_clamped (governing_velocity 0.0001 0.3 0.02) < 2000
     \<and> reynolds_clamped v < 2000
     \<and> \<not> \<bar>f - 64 / reynolds_clamped v\<bar> < 0.000001"
proof -
  define A0 :: real where "A0 = 1962 / 100 * (1 / 10000) / (145 / 100 + 2 / 100 * (3 / 10) * 100000 / 794)"
  define x0 where "x0 = sqrt A0"
  define f1 where "f1 = 64 / (7940 * x0)"
  define A1 where "A1 = 1962 / 100 * (1 / 10000) / (145 / 100 + f1 * (3 / 10) * 100000 / 794)"
  define x1 where "x1 = sqrt A1"
  define r1 where "r1 = max (7940 * x1) (1 / 1000000)"
  have e: "(0.0001::npfloat) = Fin (1 / 10000)" "(0.3::npfloat) = Fin (3 / 10)"
    "(0.02::npfloat) = Fin (2 / 100)" "(0.000001::npfloat) = Fin (1 / 1000000)"
    "(2000::npfloat) = Fin 2000"
    by (simp_all add: npfloat_eval)
  have A0: "(1 / 40)\<^sup>2 \<le> A0" "A0 \<le> (1 / 25)\<^sup>2"
    by (simp_all add: A0_def power2_eq_square)
  have "sqrt ((1 / 40)\<^sup>2) \<le> sqrt A0" "sqrt A0 \<le> sqrt ((1 / 25)\<^sup>2)"
    using A0 by (simp_all only: real_sqrt_le_iff)
  then have x0: "1 / 40 \<le> x0" "x0 \<le> 1 / 25"
    unfolding x0_def by simp_all
  have v0: "governing_velocity (Fin (1 / 10000)) (Fin (3 / 10)) (Fin (2 / 100)) = Fin x0"
    unfolding x0_def A0_def by (rule governing_velocity_Fin) simp_all
  have r0: "1 / 1000000 \<le> 7940 * x0" "7940 * x0 < 2000" "7940 * x0 < 2300"
    using x0 by simp_all
  have nf: "new_friction (Fin x0) (Fin (2 / 100)) = Fin f1"
    unfolding f1_def by (rule new_friction_laminar_Fin[OF r0(1) r0(3)])
  have f1: "1 / 5 \<le> f1" "f1 \<le> 1 / 3"
    unfolding f1_def using x0 by (simp_all add: divide_simps)
  have t: "\<not> \<bar>Fin f1 - Fin (2 / 100)\<bar> < Fin (1 / 1000000)"
    using f1 by (simp add: npfloat_eval)
  have v1: "governing_velocity (Fin (1 / 10000)) (Fin (3 / 10)) (Fin f1) = Fin x1"
    unfolding x1_def A1_def using f1 by (intro governing_velocity_Fin) simp_all
  have n1: "nat 1 = Suc 0" by simp
  have res: "calculate_velocity_and_friction 0.0001 0.3 0.000001 1 = (Fin x1, Fin f1)"
    unfolding calculate_as_loop e n1 v0
    by (simp only: friction_loop_Suc nf t if_False code_velocity_eq v1 friction_loop.simps(1))
  have "9 \<le> 145 / 100 + f1 * (3 / 10) * 100000 / 794"
    using f1(1) by simp
  then have "A1 \<le> 1962 / 100 * (1 / 10000) / 9"
    unfolding A1_def by (intro divide_left_mono) simp_all
  then have A1: "0 \<le> A1" "A1 \<le> (15 / 1000)\<^sup>2"
    using f1 by (simp_all add: A1_def power2_eq_square)
  have "sqrt A1 \<le> sqrt ((15 / 1000)\<^sup>2)"
    using A1 by (simp only: real_sqrt_le_iff)
  then have x1: "0 \<le> x1" "x1 \<le> 15 / 1000"
    unfolding x1_def using A1(1) by simp_all
  have r1: "1 / 1000000 \<le> r1" "r1 \<le> 120"
    unfolding r1_def using x1 by simp_all
  have rc0: "reynolds_clamped (Fin x0) = Fin (7940 * x0)"
    using r0(1) x0 by (simp add: reynolds_clamped_Fin)
  have rc1: "reynolds_clamped (Fin x1) = Fin r1"
    unfolding r1_def by (rule reynolds_clamped_Fin[OF x1(1)])
  have "1 / 2 \<le> 64 / r1" using r1 by (simp add: divide_simps)
  with f1(2) have far: "\<not> \<bar>f1 - 64 / r1\<bar> < 1 / 1000000" by simp
  have "reynolds_clamped (governing_velocity 0.0001 0.3 0.02) < 2000"
    unfolding e v0 rc0 using r0(2) by simp
  moreover have "reynolds_clamped (Fin x1) < 2000"
    unfolding rc1 e using r1 by simp
  moreover have "\<not> \<bar>Fin f1 - 64 / reynolds_clamped (Fin x1)\<bar> < 0.000001"
    unfolding rc1 e using far r1 by (simp add: npfloat_eval)
  ultimately show ?thesis using res by blast
qed

section \<open>One iteration of the solver\<close>

text \<open>
  Claim C3. Every iteration of \<open>friction_loop\<close> tests and updates with the new
  friction factor of the flow regime. Below the laminar threshold 2300 of the Reynolds
  number it is 64/Re; otherwise it is \<open>colebrook\<close> of Re, the tube diameter and the
  friction factor of the previous iteration, which, for a Reynolds number of at least 2300
  and a previous friction factor of at least 0.01 (every friction factor of the iteration
  is), is the f that solves the Colebrook-White correlation with the previous friction
  factor in its implicit term.
\<close>

theorem friction_update_by_regime:
  "friction_loop (Suc n) h L tol v f =
     (if \<bar>new_friction v f - f\<bar> < tol then (v, f)
      else friction_loop n h L tol (governing_velocity h L (new_friction v f))
             (new_friction v f))
   \<and> (reynolds_clamped v < 2300 \<longrightarrow> new_friction v f = 64 / reynolds_clamped v)
   \<and> (\<not> reynolds_clamped v < 2300 \<longrightarrow>
        new_friction v f = colebrook (reynolds_clamped v) D_TUBE f)
   \<and> (\<forall>r p. reynolds_clamped v = Fin r \<and> 2300 \<le> r \<and> f = Fin p \<and> 1 / 100 \<le> p \<longrightarrow>
        (\<exists>q. new_friction v f = Fin q \<and> 0 < q
           \<and> 1 / sqrt q = colebrook_rhs (0.0000015 / 0.00794) r p))"
proof (intro conjI allI impI)
  show "friction_loop (Suc n) h L tol v f =
     (if \<bar>new_friction v f - f\<bar> < tol then (v, f)
      else friction_loop n h L tol (governing_velocity h L (new_friction v f))
             (new_friction v f))"
    by (simp only: friction_loop_Suc code_velocity_eq)
next
  assume "reynolds_clamped v < 2300"
  then show "new_friction v f = 64 / reynolds_clamped v"
    by (simp add: new_friction_def Let_def)
next
  assume "\<not> reynolds_clamped v < 2300"
  then show "new_friction v f = colebrook (reynolds_clamped v) D_TUBE f"
    by (simp add: new_friction_def Let_def)
next
  fix r p
  assume a: "reynolds_clamped v = Fin r \<and> 2300 \<le> r \<and> f = Fin p \<and> 1 / 100 \<le> p"
  then have r: "2300 \<le> r" and p: "1 / 100 \<le> p" by simp_all
  define b where "b = colebrook_rhs (0.0000015 / 0.00794) r p"
  note cv = colebrook_value[OF r p, folded b_def]
  have "new_friction v f = colebrook (Fin r) D_TUBE (Fin p)"
    using a by (simp add: new_friction_def Let_def npfloat_eval)
  then have nf: "new_friction v f = Fin (1 / b\<^sup>2)" by (simp only: cv(1))
  have "0 < 1 / b\<^sup>2" using cv(2) by simp
  moreover have "1 / sqrt (1 / b\<^sup>2) = b"
    using cv(2) by (simp add: real_sqrt_divide)
  ultimately show "\<exists>q. new_friction v f = Fin q \<and> 0 < q
      \<and> 1 / sqrt q = colebrook_rhs (0.0000015 / 0.00794) r p"
    using nf unfolding b_def by blast
qed

text \<open>
  At velocity 0 the regime is laminar; at velocity 1 the Reynolds number is 7940 and the
  regime turbulent.
\<close>

theorem friction_update_by_regime_witness:
  "reynolds_clamped 0 < 2300 \<and> new_friction 0 0.02 = 64 / reynolds_clamped 0
   \<and> \<not> reynolds_clamped 1 < 2300 \<and> reynolds_clamped 1 = Fin 7940
   \<and> new_friction 1 1 = colebrook (reynolds_clamped 1) D_TUBE 1
   \<and> (\<exists>q. new_friction 1 1 = Fin q \<and> 0 < q
        \<and> 1 / sqrt q = colebrook_rhs (0.0000015 / 0.00794) 7940 1)"
proof -
  have r0: "reynolds_clamped 0 < 2300"
    by (simp add: reynolds_clamped_def solver_consts npfloat_eval Let_def)
  have r1: "reynolds_clamped 1 = Fin 7940"
    by (simp add: reynolds_clamped_def solver_consts npfloat_eval Let_def)
  then have n1: "\<not> reynolds_clamped 1 < 2300"
    by (simp add: npfloat_eval)
  have one: "(1::npfloat) = Fin 1" by (simp add: npfloat_eval)
  note th0 = friction_update_by_regime[of 0 0 0 0 0 "0.02"]
  note th1 = friction_update_by_regime[of 0 0 0 0 1 1]
  from th1 have "\<forall>r p. reynolds_clamped 1 = Fin r \<and> 2300 \<le> r \<and> (1::npfloat) = Fin p
      \<and> 1 / 100 \<le> p \<longrightarrow>
        (\<exists>q. new_friction 1 1 = Fin q \<and> 0 < q
           \<and> 1 / sqrt q = colebrook_rhs (0.0000015 / 0.00794) r p)" by blast
  from this[rule_format, of 7940 1] r1 one
  have last: "\<exists>q. new_friction 1 1 = Fin q \<and> 0 < q
        \<and> 1 / sqrt q = colebrook_rhs (0.0000015 / 0.00794) 7940 1" by simp
  from th0 r0 have "new_friction 0 0.02 = 64 / reynolds_clamped 0" by blast
  moreover from th1 n1 have "new_friction 1 1 = colebrook (reynolds_clamped 1) D_TUBE 1"
    by blast
  ultimately show ?thesis using r0 r1 n1 last by blast
qed

text \<open>
  Claim C9. Every iteration of \<open>friction_loop\<close> computes its new friction factor from
  the Reynolds number after the floor: the Reynolds number is replaced by 1e-6 when it is
  below 1e-6, before the regime test and the division. After the floor it is never below
  1e-6. In the laminar branch it is a finite number of at least 1e-6, so 64/Re divides by
  a non-zero number and is finite. At height zero (and a finite non-negative tube length)
  the solver returns the velocity 0 and a finite positive friction factor; with the
  default tolerance and at least one iteration that friction factor is 64/1e-6, the
  laminar value at the floor.
\<close>

theorem reynolds_floor_keeps_division_safe:
  "friction_loop (Suc n) h L tol v f =
     (if \<bar>new_friction v f - f\<bar> < tol then (v, f)
      else friction_loop n h L tol
             (np_sqrt (2 * G * h / (1 + (new_friction v f * L / D_TUBE) + K_ENTRANCE + K_EXIT)))
             (new_friction v f))
   \<and> new_friction v f =
        (if reynolds_clamped v < 2300 then 64 / reynolds_clamped v
         else colebrook (reynolds_clamped v) D_TUBE f)
   \<and> reynolds_clamped v =
        (if RHO * v * D_TUBE / MU < 0.000001 then 0.000001 else RHO * v * D_TUBE / MU)
   \<and> \<not> reynolds_clamped v < 0.000001
   \<and> (reynolds_clamped v < 2300 \<longrightarrow>
        (\<exists>r. reynolds_clamped v = Fin r \<and> 1 / 1000000 \<le> r \<and> new_friction v f = Fin (64 / r)))
   \<and> (0 \<le> l \<longrightarrow>
        (\<exists>q. calculate_velocity_and_friction 0 (Fin l) tol' max_iterations = (0, Fin q)
           \<and> 0 < q))
   \<and> (0 \<le> l \<longrightarrow> 1 \<le> max_iterations \<longrightarrow>
        calculate_velocity_and_friction 0 (Fin l) 0.000001 max_iterations = (0, 64000000))"
proof (intro conjI impI)
  show "friction_loop (Suc n) h L tol v f =
     (if \<bar>new_friction v f - f\<bar> < tol then (v, f)
      else friction_loop n h L tol
             (np_sqrt (2 * G * h / (1 + (new_friction v f * L / D_TUBE) + K_ENTRANCE + K_EXIT)))
             (new_friction v f))"
    by (rule friction_loop_Suc)
next
  show "new_friction v f =
        (if reynolds_clamped v < 2300 then 64 / reynolds_clamped v
         else colebrook (reynolds_clamped v) D_TUBE f)"
    by (simp only: new_friction_def Let_def)
next
  show "reynolds_clamped v =
        (if RHO * v * D_TUBE / MU < 0.000001 then 0.000001 else RHO * v * D_TUBE / MU)"
    by (simp only: reynolds_clamped_def Let_def)
next
  show "\<not> reynolds_clamped v < 0.000001"
    using reynolds_clamped_cases[of v] by (auto simp add: npfloat_eval)
next
  assume lam: "reynolds_clamped v < 2300"
  with reynolds_clamped_cases[of v] obtain r where
    r: "reynolds_clamped v = Fin r" "1 / 1000000 \<le> r"
    by (auto simp add: npfloat_eval)
  have "new_friction v f = Fin (64 / r)"
    using lam r by (simp add: new_friction_def Let_def npfloat_eval)
  with r show "\<exists>r. reynolds_clamped v = Fin r \<and> 1 / 1000000 \<le> r \<and> new_friction v f = Fin (64 / r)"
    by blast
next
  assume l: "0 \<le> l"
  have z: "(0::real) \<le> 0" by simp
  from solver_Fin[OF z l, of tol' max_iterations] obtain q where
    "calculate_velocity_and_friction (Fin 0) (Fin l) tol' max_iterations
       = (Fin (sqrt (1962 / 100 * 0 / (145 / 100 + q * l * 100000 / 794))), Fin q)"
    "1 / 100 \<le> q" by blast
  then have "calculate_velocity_and_friction 0 (Fin l) tol' max_iterations = (0, Fin q) \<and> 0 < q"
    by (simp add: npfloat_eval)
  then show "\<exists>q. calculate_velocity_and_friction 0 (Fin l) tol' max_iterations = (0, Fin q)
      \<and> 0 < q" ..
next
  assume "0 \<le> l" "1 \<le> max_iterations"
  then show "calculate_velocity_and_friction 0 (Fin l) 0.000001 max_iterations = (0, 64000000)"
    by (rule solver_zero_height_iterated)
qed

text \<open>
  At velocity 0 the Reynolds number is the floor and the new friction factor 64/1e-6; the
  default call at height 0 and tube length 0.3 returns it.
\<close>

theorem reynolds_floor_keeps_division_safe_witness:
  "reynolds_clamped 0 < 2300
   \<and> (\<exists>r. reynolds_clamped 0 = Fin r \<and> 1 / 1000000 \<le> r \<and> new_friction 0 0.02 = Fin (64 / r))
   \<and> (0::real) \<le> 3 / 10 \<and> (1::int) \<le> 100
   \<and> (\<exists>q. calculate_velocity_and_friction 0 (Fin (3 / 10)) 0.000001 100 = (0, Fin q) \<and> 0 < q)
   \<and> calculate_velocity_and_friction 0 (Fin (3 / 10)) 0.000001 100 = (0, 64000000)"
proof -
  have r: "reynolds_clamped 0 < 2300"
    by (simp add: reynolds_clamped_def solver_consts npfloat_eval Let_def)
  have l: "(0::real) \<le> 3 / 10" by simp
  have m: "(1::int) \<le> 100" by simp
  from reynolds_floor_keeps_division_safe[of 0 0 0 0 0 "0.02" "3 / 10" "0.000001" 100] r l m
  show ?thesis by blast
qed

section \<open>The simplified discharge model\<close>


end
